theory Spec2Isabelle
  imports Main
begin

section \<open>params.go: the request-scoped parameter store\<close>

text \<open>
  \<^verbatim>\<open>type Params struct { Values map[string]string }\<close>.
  The map is the one dispatch creates with a map literal, so it is a (non-nil) finite
  map from keys to values.
\<close>

record Params =
  Values :: "string \<rightharpoonup> string"

text \<open>
  The error value of \<^verbatim>\<open>fmt.Errorf("%q: no such param", key)\<close>: the message is the
  quoted key followed by a fixed text, so the value is kept as the key it carries.
\<close>

datatype error = NoSuchParam string

text \<open>\<^verbatim>\<open>GetE\<close> returns the Go pair \<^verbatim>\<open>(string, error)\<close>; a nil error is \<open>None\<close>.\<close>

definition GetE :: "Params \<Rightarrow> string \<Rightarrow> string \<times> error option" where
  "GetE p key = (case Values p key of
                   Some res \<Rightarrow> (res, None)
                 | None \<Rightarrow> ('''', Some (NoSuchParam key)))"

text \<open>\<^verbatim>\<open>p.Values[key]\<close> on a missing key is the zero value, the empty string.\<close>

definition Get :: "Params \<Rightarrow> string \<Rightarrow> string" where
  "Get p key = (case Values p key of Some res \<Rightarrow> res | None \<Rightarrow> '''')"

text \<open>
  \<^verbatim>\<open>Set\<close> writes through the shared map and returns whether the key is now present;
  the model returns that flag and the updated store.
\<close>

definition Set :: "Params \<Rightarrow> string \<Rightarrow> string \<Rightarrow> bool \<times> Params" where
  "Set p key val =
     (let p' = p\<lparr>Values := (Values p)(key \<mapsto> val)\<rparr>
      in (key \<in> dom (Values p'), p'))"

section \<open>The collaborators: package strings and fmt\<close>

text \<open>
  Strings are lists of 8-bit characters, each standing for one rune; the case functions
  below fold the ASCII letters, which is what \<^verbatim>\<open>strings.ToUpper\<close> and
  \<^verbatim>\<open>strings.EqualFold\<close> do on ASCII text such as HTTP method names.
\<close>

definition to_upper :: "char \<Rightarrow> char" where
  "to_upper c =
     (let n = (of_char c :: nat)
      in if 97 \<le> n \<and> n \<le> 122 then char_of (n - 32) else c)"

definition ToUpper :: "string \<Rightarrow> string" where
  "ToUpper s = map to_upper s"

definition EqualFold :: "string \<Rightarrow> string \<Rightarrow> bool" where
  "EqualFold s t = (map to_upper s = map to_upper t)"

fun Join :: "string list \<Rightarrow> string \<Rightarrow> string" where
  "Join [] sep = []"
| "Join [x] sep = x"
| "Join (x # y # ys) sep = x @ sep @ Join (y # ys) sep"

text \<open>\<^verbatim>\<open>fmt.Sprintf("%d", i)\<close> for a slice index \<open>i\<close>.\<close>

fun Sprintf_d :: "nat \<Rightarrow> string" where
  "Sprintf_d n =
     (if n < 10 then [char_of (48 + n)]
      else Sprintf_d (n div 10) @ [char_of (48 + n mod 10)])"

declare Sprintf_d.simps [simp del]

section \<open>The collaborator: package regexp\<close>

text \<open>
  A compiled \<^verbatim>\<open>*regexp.Regexp\<close> is its syntax tree. The tree covers the part of
  the RE2 syntax that route patterns are written in: literals, \<^verbatim>\<open>.\<close>, bracket
  classes, the text anchors \<^verbatim>\<open>^\<close> and \<^verbatim>\<open>$\<close>, capturing groups (named or
  not), the greedy repetitions \<^verbatim>\<open>*\<close>, \<^verbatim>\<open>+\<close>, \<^verbatim>\<open>?\<close>, concatenation and
  alternation.
\<close>

datatype regex =
    EmptyMatch
  | Literal char
  | AnyCharNotNL
  | CharClass bool "(char \<times> char) list"
  | BeginText
  | EndText
  | Capture nat string regex
  | Star regex
  | Plus regex
  | Quest regex
  | Concat regex regex
  | Alternate regex regex

text \<open>
  \<^verbatim>\<open>SubexpNames\<close>: one name per group, group 0 (the whole match) included and
  unnamed; the slice has \<^verbatim>\<open>MaxCap + 1\<close> entries and entry \<open>i\<close> is the name written
  at group \<open>i\<close>.
\<close>

fun MaxCap :: "regex \<Rightarrow> nat" where
  "MaxCap (Capture i name r) = max i (MaxCap r)"
| "MaxCap (Star r) = MaxCap r"
| "MaxCap (Plus r) = MaxCap r"
| "MaxCap (Quest r) = MaxCap r"
| "MaxCap (Concat r1 r2) = max (MaxCap r1) (MaxCap r2)"
| "MaxCap (Alternate r1 r2) = max (MaxCap r1) (MaxCap r2)"
| "MaxCap _ = 0"

fun capNames :: "regex \<Rightarrow> string list \<Rightarrow> string list" where
  "capNames (Capture i name r) names = capNames r (names[i := name])"
| "capNames (Star r) names = capNames r names"
| "capNames (Plus r) names = capNames r names"
| "capNames (Quest r) names = capNames r names"
| "capNames (Concat r1 r2) names = capNames r2 (capNames r1 names)"
| "capNames (Alternate r1 r2) names = capNames r2 (capNames r1 names)"
| "capNames _ names = names"

definition SubexpNames :: "regex \<Rightarrow> string list" where
  "SubexpNames re = capNames re (replicate (Suc (MaxCap re)) [])"

text \<open>
  Matching is leftmost-first, as in Perl and in Go's default mode: a thread is a position
  in the text together with the spans of the groups it has closed, and \<open>run\<close> lists the
  threads that leave an expression in the order of preference (the left alternative
  first, one more iteration before stopping).
\<close>

type_synonym thread = "nat \<times> (nat \<times> nat) option list"

definition in_class :: "bool \<Rightarrow> (char \<times> char) list \<Rightarrow> char \<Rightarrow> bool" where
  "in_class neg ranges c =
     ((\<exists>(lo, hi) \<in> set ranges. (of_char lo :: nat) \<le> of_char c \<and> (of_char c :: nat) \<le> of_char hi) \<noteq> neg)"

primrec star_iter :: "(thread \<Rightarrow> thread list) \<Rightarrow> nat \<Rightarrow> thread \<Rightarrow> thread list" where
  "star_iter body 0 t = [t]"
| "star_iter body (Suc n) t =
     concat (map (star_iter body n) (filter (\<lambda>t'. fst t < fst t') (body t))) @ [t]"

primrec run :: "regex \<Rightarrow> string \<Rightarrow> thread \<Rightarrow> thread list" where
  "run EmptyMatch s t = [t]"
| "run (Literal c) s t = (if fst t < length s \<and> s ! fst t = c then [(Suc (fst t), snd t)] else [])"
| "run AnyCharNotNL s t =
     (if fst t < length s \<and> s ! fst t \<noteq> CHR 0x0A then [(Suc (fst t), snd t)] else [])"
| "run (CharClass neg ranges) s t =
     (if fst t < length s \<and> in_class neg ranges (s ! fst t) then [(Suc (fst t), snd t)] else [])"
| "run BeginText s t = (if fst t = 0 then [t] else [])"
| "run EndText s t = (if fst t = length s then [t] else [])"
| "run (Capture i name r) s t =
     map (\<lambda>t'. (fst t', (snd t')[i := Some (fst t, fst t')])) (run r s t)"
| "run (Star r) s t = star_iter (run r s) (length s) t"
| "run (Plus r) s t = concat (map (star_iter (run r s) (length s)) (run r s t))"
| "run (Quest r) s t = run r s t @ [t]"
| "run (Concat r1 r2) s t = concat (map (run r2 s) (run r1 s t))"
| "run (Alternate r1 r2) s t = run r1 s t @ run r2 s t"

text \<open>
  \<^verbatim>\<open>FindStringSubmatch\<close> tries the start positions from the left and takes the
  preferred thread of the first position that has one. The result holds the text of the
  match and of each group, the empty string for a group that took no part, and is
  \<^verbatim>\<open>nil\<close> (the empty list) when there is no match.
\<close>

fun first_match :: "regex \<Rightarrow> string \<Rightarrow> nat list \<Rightarrow> (nat \<times> thread) option" where
  "first_match re s [] = None"
| "first_match re s (b # bs) =
     (case run re s (b, replicate (Suc (MaxCap re)) None) of
        [] \<Rightarrow> first_match re s bs
      | t # _ \<Rightarrow> Some (b, t))"

definition FindStringSubmatch :: "regex \<Rightarrow> string \<Rightarrow> string list" where
  "FindStringSubmatch re s =
     (case first_match re s [0 ..< Suc (length s)] of
        None \<Rightarrow> []
      | Some (b, t) \<Rightarrow>
          map (\<lambda>c. case c of None \<Rightarrow> [] | Some (lo, hi) \<Rightarrow> take (hi - lo) (drop lo s))
              ((snd t)[0 := Some (b, fst t)]))"

subsection \<open>Compiling a pattern\<close>

text \<open>
  The pattern is split into tokens and the tokens are reduced on a stack of open groups,
  as \<^verbatim>\<open>regexp/syntax\<close> does. An expression outside the fragment (an escape that is
  not escaped punctuation, a flag group, a counted or non-greedy repetition, a repetition
  of an expression that can match the empty string, a bracket class that starts with
  \<^verbatim>\<open>]\<close> or contains \<^verbatim>\<open>[\<close>) and a malformed one are both \<open>None\<close>.
\<close>

definition backslash :: char where
  "backslash = CHR 0x5C"

definition is_alnum :: "char \<Rightarrow> bool" where
  "is_alnum c =
     (let n = (of_char c :: nat)
      in (48 \<le> n \<and> n \<le> 57) \<or> (65 \<le> n \<and> n \<le> 90) \<or> (97 \<le> n \<and> n \<le> 122))"

definition is_punct :: "char \<Rightarrow> bool" where
  "is_punct c = ((of_char c :: nat) < 128 \<and> \<not> is_alnum c)"

definition isValidCaptureName :: "string \<Rightarrow> bool" where
  "isValidCaptureName name = (name \<noteq> [] \<and> (\<forall>c \<in> set name. c = CHR ''_'' \<or> is_alnum c))"

datatype token =
    TLit char
  | TDot
  | TClass bool "(char \<times> char) list"
  | TBegin
  | TEnd
  | TOpen "string option"
  | TClose
  | TBar
  | TStar
  | TPlus
  | TQuest

text \<open>
  The lexing functions return a token with the number of characters they took after the
  first one. In a bracket class a character is itself or escaped punctuation, and
  \<^verbatim>\<open>lo-hi\<close> is a range unless the \<^verbatim>\<open>-\<close> stands before the closing bracket.
\<close>

definition class_atom :: "char \<Rightarrow> string \<Rightarrow> (char \<times> nat) option" where
  "class_atom c cs =
     (if c = backslash then
        (case cs of
           [] \<Rightarrow> None
         | d # _ \<Rightarrow> if is_punct d then Some (d, 1) else None)
      else if c = CHR ''['' then None
      else Some (c, 0))"

fun class_items :: "bool \<Rightarrow> string \<Rightarrow> ((char \<times> char) list \<times> nat) option" where
  "class_items first [] = None"
| "class_items first (c # cs) =
     (if c = CHR '']'' then (if first then None else Some ([], 1))
      else
        (case class_atom c cs of
           None \<Rightarrow> None
         | Some (lo, n) \<Rightarrow>
             (let rest = drop n cs
              in if 2 \<le> length rest \<and> rest ! 0 = CHR ''-'' \<and> rest ! 1 \<noteq> CHR '']'' then
                   (case class_atom (rest ! 1) (drop 2 rest) of
                      None \<Rightarrow> None
                    | Some (hi, k) \<Rightarrow>
                        if (of_char hi :: nat) < of_char lo then None
                        else map_option (\<lambda>(rs, j). ((lo, hi) # rs, 1 + n + 2 + k + j))
                               (class_items False (drop (n + 2 + k) cs)))
                 else map_option (\<lambda>(rs, j). ((lo, lo) # rs, 1 + n + j))
                        (class_items False (drop n cs)))))"

definition lex_class :: "bool \<Rightarrow> string \<Rightarrow> nat \<Rightarrow> (token \<times> nat) option" where
  "lex_class neg body k =
     (case class_items True body of
        None \<Rightarrow> None
      | Some (ranges, n) \<Rightarrow> Some (TClass neg ranges, k + n))"

text \<open>
  After \<^verbatim>\<open>(\<close>: a named group \<^verbatim>\<open>(?P<name>\<close>, a group that does not capture
  \<^verbatim>\<open>(?:\<close>, or a plain capturing group, whose name is empty.
\<close>

definition lex_group :: "string \<Rightarrow> (token \<times> nat) option" where
  "lex_group cs =
     (if take 1 cs = ''?'' then
        (if take 2 (drop 1 cs) = ''P<'' then
           (let name = takeWhile (\<lambda>c. c \<noteq> CHR ''>'') (drop 3 cs)
            in if length name < length (drop 3 cs) \<and> isValidCaptureName name
               then Some (TOpen (Some name), 3 + length name + 1)
               else None)
         else if take 1 (drop 1 cs) = '':'' then Some (TOpen None, 2)
         else None)
      else Some (TOpen (Some []), 0))"

definition lex1 :: "char \<Rightarrow> string \<Rightarrow> (token \<times> nat) option" where
  "lex1 c cs =
     (if c = backslash then
        (case cs of
           [] \<Rightarrow> None
         | d # _ \<Rightarrow> if is_punct d then Some (TLit d, 1) else None)
      else if c = CHR ''.'' then Some (TDot, 0)
      else if c = CHR ''^'' then Some (TBegin, 0)
      else if c = CHR ''$'' then Some (TEnd, 0)
      else if c = CHR ''|'' then Some (TBar, 0)
      else if c = CHR '')'' then Some (TClose, 0)
      else if c = CHR ''*'' then Some (TStar, 0)
      else if c = CHR ''+'' then Some (TPlus, 0)
      else if c = CHR ''?'' then Some (TQuest, 0)
      else if c = CHR ''{'' then None
      else if c = CHR ''('' then lex_group cs
      else if c = CHR ''['' then
        (if take 1 cs = ''^'' then lex_class True (drop 1 cs) 1 else lex_class False cs 0)
      else Some (TLit c, 0))"

fun tokenize :: "string \<Rightarrow> token list option" where
  "tokenize [] = Some []"
| "tokenize (c # cs) =
     (case lex1 c cs of
        None \<Rightarrow> None
      | Some (tok, n) \<Rightarrow> map_option ((#) tok) (tokenize (drop n cs)))"

fun nullable :: "regex \<Rightarrow> bool" where
  "nullable EmptyMatch = True"
| "nullable (Literal c) = False"
| "nullable AnyCharNotNL = False"
| "nullable (CharClass neg ranges) = False"
| "nullable BeginText = True"
| "nullable EndText = True"
| "nullable (Capture i name r) = nullable r"
| "nullable (Star r) = True"
| "nullable (Plus r) = nullable r"
| "nullable (Quest r) = True"
| "nullable (Concat r1 r2) = (nullable r1 \<and> nullable r2)"
| "nullable (Alternate r1 r2) = (nullable r1 \<or> nullable r2)"

fun concat_of :: "regex list \<Rightarrow> regex" where
  "concat_of [] = EmptyMatch"
| "concat_of [r] = r"
| "concat_of (r # rs) = Concat r (concat_of rs)"

fun alternate_of :: "regex list \<Rightarrow> regex" where
  "alternate_of [] = EmptyMatch"
| "alternate_of [r] = r"
| "alternate_of (r # rs) = Alternate r (alternate_of rs)"

text \<open>
  An open group on the stack: its capture index and name (none for the whole expression
  and for a group that does not capture), the alternatives it has finished and the
  factors of the one being read. A repetition applies to the last factor; one that
  follows another repetition is refused.
\<close>

type_synonym frame = "(nat \<times> string) option \<times> regex list \<times> regex list"

definition close_frame :: "frame \<Rightarrow> regex" where
  "close_frame f =
     (case f of (g, alts, cur) \<Rightarrow>
        (let body = alternate_of (alts @ [concat_of cur])
         in case g of None \<Rightarrow> body | Some (i, name) \<Rightarrow> Capture i name body))"

definition push_atom :: "regex \<Rightarrow> frame list \<Rightarrow> frame list" where
  "push_atom a st =
     (case st of [] \<Rightarrow> [] | (g, alts, cur) # below \<Rightarrow> (g, alts, cur @ [a]) # below)"

definition repeat :: "(regex \<Rightarrow> regex) \<Rightarrow> bool \<Rightarrow> bool \<Rightarrow> frame list \<Rightarrow> frame list option" where
  "repeat op loops rep st =
     (case st of
        [] \<Rightarrow> None
      | (g, alts, cur) # below \<Rightarrow>
          if rep \<or> cur = [] \<or> (loops \<and> nullable (last cur)) then None
          else Some ((g, alts, butlast cur @ [op (last cur)]) # below))"

fun parse :: "frame list \<Rightarrow> nat \<Rightarrow> bool \<Rightarrow> token list \<Rightarrow> regex option" where
  "parse st n rep [] = (case st of [f] \<Rightarrow> Some (close_frame f) | _ \<Rightarrow> None)"
| "parse st n rep (TLit c # toks) = parse (push_atom (Literal c) st) n False toks"
| "parse st n rep (TDot # toks) = parse (push_atom AnyCharNotNL st) n False toks"
| "parse st n rep (TClass neg ranges # toks) = parse (push_atom (CharClass neg ranges) st) n False toks"
| "parse st n rep (TBegin # toks) = parse (push_atom BeginText st) n False toks"
| "parse st n rep (TEnd # toks) = parse (push_atom EndText st) n False toks"
| "parse st n rep (TOpen None # toks) = parse ((None, [], []) # st) n False toks"
| "parse st n rep (TOpen (Some name) # toks) =
     parse ((Some (Suc n, name), [], []) # st) (Suc n) False toks"
| "parse st n rep (TClose # toks) =
     (case st of
        f # below \<Rightarrow> (if below = [] then None else parse (push_atom (close_frame f) below) n False toks)
      | [] \<Rightarrow> None)"
| "parse st n rep (TBar # toks) =
     (case st of
        (g, alts, cur) # below \<Rightarrow> parse ((g, alts @ [concat_of cur], []) # below) n False toks
      | [] \<Rightarrow> None)"
| "parse st n rep (TStar # toks) =
     (case repeat Star True rep st of None \<Rightarrow> None | Some st' \<Rightarrow> parse st' n True toks)"
| "parse st n rep (TPlus # toks) =
     (case repeat Plus True rep st of None \<Rightarrow> None | Some st' \<Rightarrow> parse st' n True toks)"
| "parse st n rep (TQuest # toks) =
     (case repeat Quest False rep st of None \<Rightarrow> None | Some st' \<Rightarrow> parse st' n True toks)"

definition Compile :: "string \<Rightarrow> regex option" where
  "Compile expr =
     (case tokenize expr of
        None \<Rightarrow> None
      | Some toks \<Rightarrow> parse [(None, [], [])] 0 False toks)"

section \<open>main.go: the router\<close>

subsection \<open>Faults, responses and requests\<close>

text \<open>
  A panic is a value: the run-time panics the router's own code can raise (a call through
  a nil function value, an index out of range, a failed type assertion), the panic of
  \<^verbatim>\<open>regexp.MustCompile\<close>, and a panic raised by a handler with its message.
\<close>

datatype fault =
    NilFuncCall
  | IndexOutOfRange nat nat
  | InterfaceConversion
  | CompileError string
  | Panic string

text \<open>The values a status handler's \<^verbatim>\<open>map[string]interface{}\<close> carries.\<close>

datatype val = VString string | VFault fault

type_synonym payload = "string \<rightharpoonup> val"

text \<open>
  What is done to the \<^verbatim>\<open>http.ResponseWriter\<close>, in order: setting a header,
  \<^verbatim>\<open>WriteHeader\<close>, \<^verbatim>\<open>Write\<close>, a call of \<^verbatim>\<open>http.Error\<close>, and the file server
  of a directory serving a URL path.
\<close>

datatype action =
    HeaderSet string string
  | WriteHeader nat
  | Write string
  | HttpError string nat
  | FileServer string string

text \<open>
  A callable runs some actions on the response and then returns, or panics: the second
  component is the panic value, \<open>None\<close> for a normal return.
\<close>

type_synonym effect = "action list \<times> fault option"

text \<open>
  Of a \<^verbatim>\<open>*http.Request\<close> the router reads the method, \<^verbatim>\<open>URL.Path\<close>, the headers,
  and the value its context holds under the router's key \<^verbatim>\<open>rr.CTX\<close>.
\<close>

record request =
  Method :: string
  Path :: string
  Header :: "string \<rightharpoonup> string"
  ctx :: "Params option"

definition Header_Get :: "request \<Rightarrow> string \<Rightarrow> string" where
  "Header_Get r key = (case Header r key of Some v \<Rightarrow> v | None \<Rightarrow> [])"

type_synonym HandlerFunc = "request \<Rightarrow> effect"

subsection \<open>The router's data\<close>

record Route =
  route_method :: string
  regex :: regex
  handler :: HandlerFunc
  CORS :: bool

text \<open>
  The field \<^verbatim>\<open>method\<close> of a route is written \<open>route_method\<close>.
  A status code missing from \<^verbatim>\<open>ErrorCodes\<close> reads as the nil function. The field
  \<^verbatim>\<open>Handlers.CORS\<close> is written \<open>CORSFunc\<close> here, apart from the flag of a route;
  it and the handler of a route are function values that are set (not nil).
\<close>

record Handlers =
  CORSFunc :: "string list \<Rightarrow> request \<Rightarrow> effect"
  ErrorCodes :: "int \<rightharpoonup> (payload \<Rightarrow> request \<Rightarrow> effect)"

record RegRouter =
  Routes :: "Route list"
  CTX :: unit
  Handlers :: Handlers

subsection \<open>New: the default handlers\<close>

definition newline :: string where
  "newline = [CHR 0x0A]"

text \<open>\<^verbatim>\<open>%s\<close> of a payload entry.\<close>

fun fault_text :: "fault \<Rightarrow> string" where
  "fault_text NilFuncCall = ''runtime error: invalid memory address or nil pointer dereference''"
| "fault_text (IndexOutOfRange i n) =
     ''runtime error: index out of range ['' @ Sprintf_d i @ ''] with length '' @ Sprintf_d n"
| "fault_text InterfaceConversion = ''interface conversion: interface is nil''"
| "fault_text (CompileError msg) = msg"
| "fault_text (Panic msg) = msg"

fun Sprintf_s :: "val option \<Rightarrow> string" where
  "Sprintf_s None = ''%!s(<nil>)''"
| "Sprintf_s (Some (VString s)) = s"
| "Sprintf_s (Some (VFault f)) = fault_text f"

definition default_CORS :: "string list \<Rightarrow> request \<Rightarrow> effect" where
  "default_CORS methods r =
     ([HeaderSet ''Access-Control-Allow-Origin'' (Header_Get r ''Origin''),
       HeaderSet ''Access-Control-Allow-Methods'' (Join methods '', ''),
       HeaderSet ''Access-Control-Allow-Credentials'' ''true'',
       HeaderSet ''Access-Control-Allow-Headers''
         ''Accept, Content-Type, Content-Length, Accept-Encoding, X-CSRF-Token, Authorization''],
      None)"

definition default_404 :: "payload \<Rightarrow> request \<Rightarrow> effect" where
  "default_404 data r = ([HttpError (''404 - Not Found'' @ newline) 404], None)"

text \<open>\<^verbatim>\<open>data["allowed"].(string)\<close> panics unless the entry is a string.\<close>

definition default_405 :: "payload \<Rightarrow> request \<Rightarrow> effect" where
  "default_405 data r =
     (case data ''allowed'' of
        Some (VString s) \<Rightarrow>
          ([HeaderSet ''Allow'' s,
            HttpError (''405 - Method Not Allowed (Valid: '' @ s @ '')'' @ newline) 405], None)
      | _ \<Rightarrow> ([], Some InterfaceConversion))"

definition default_500 :: "payload \<Rightarrow> request \<Rightarrow> effect" where
  "default_500 data r =
     ([HttpError (''500 - Internal Server Error (Exception: '' @ Sprintf_s (data ''exception'')
                   @ '')'' @ newline) 500], None)"

definition New :: RegRouter where
  "New = \<lparr>Routes = [], CTX = (),
          Handlers = \<lparr>CORSFunc = default_CORS,
                      ErrorCodes = [404 \<mapsto> default_404, 405 \<mapsto> default_405,
                                    500 \<mapsto> default_500]\<rparr>\<rparr>"

subsection \<open>Handler: dispatch\<close>

text \<open>
  A dispatch is observed as the calls the router makes (the CORS writer with its methods,
  a status handler with its code and payload, the handler of the route at an index of
  \<^verbatim>\<open>rr.Routes\<close> with the request it is given) and the actions on the response,
  in order, followed by the panic that left it, if any.
\<close>

datatype event =
    CallCORS "string list"
  | CallErrorCode int payload
  | CallHandler nat request
  | Response action

type_synonym outcome = "event list \<times> fault option"

definition performed :: "effect \<Rightarrow> outcome" where
  "performed e = (map Response (fst e), snd e)"

text \<open>One statement after another: a panic in the first skips the second.\<close>

definition seq :: "outcome \<Rightarrow> outcome \<Rightarrow> outcome" where
  "seq a b = (case snd a of Some f \<Rightarrow> a | None \<Rightarrow> (fst a @ fst b, snd b))"

text \<open>\<^verbatim>\<open>rr.Handlers.CORS(methods, w, r)\<close>\<close>

definition call_CORS :: "RegRouter \<Rightarrow> string list \<Rightarrow> request \<Rightarrow> outcome" where
  "call_CORS rr methods r =
     seq ([CallCORS methods], None) (performed (CORSFunc (Handlers rr) methods r))"

text \<open>\<^verbatim>\<open>rr.Handlers.ErrorCodes[code](data, w, r)\<close>\<close>

definition call_ErrorCode :: "RegRouter \<Rightarrow> int \<Rightarrow> payload \<Rightarrow> request \<Rightarrow> outcome" where
  "call_ErrorCode rr code data r =
     (case ErrorCodes (Handlers rr) code of
        None \<Rightarrow> ([], Some NilFuncCall)
      | Some h \<Rightarrow> seq ([CallErrorCode code data], None) (performed (h data r)))"

text \<open>
  \<^verbatim>\<open>for i, name := range route.regex.SubexpNames() { params.Set(key, matches[i]) }\<close>
  where the key is \<^verbatim>\<open>fmt.Sprintf("%d", i)\<close> when \<^verbatim>\<open>len(name) == 0\<close> and the name
  otherwise.
\<close>

fun set_params :: "string list \<Rightarrow> string list \<Rightarrow> nat \<Rightarrow> Params \<Rightarrow> fault + Params" where
  "set_params [] matches i params = Inr params"
| "set_params (name # names) matches i params =
     (if i < length matches
      then set_params names matches (Suc i)
             (snd (Set params (if length name = 0 then Sprintf_d i else name) (matches ! i)))
      else Inl (IndexOutOfRange i (length matches)))"

text \<open>
  The end of the loop body: the parameters are set and the route's handler runs with the
  request that carries them,
  \<^verbatim>\<open>route.handler(w, r.WithContext(context.WithValue(r.Context(), rr.CTX, params)))\<close>.
\<close>

definition run_route :: "nat \<Rightarrow> Route \<Rightarrow> request \<Rightarrow> string list \<Rightarrow> Params \<Rightarrow> outcome" where
  "run_route i route r matches params =
     (case set_params (SubexpNames (regex route)) matches 0 params of
        Inl f \<Rightarrow> ([], Some f)
      | Inr params' \<Rightarrow>
          seq ([CallHandler i (r\<lparr>ctx := Some params'\<rparr>)], None)
              (performed (handler route (r\<lparr>ctx := Some params'\<rparr>))))"

text \<open>After the loop: \<^verbatim>\<open>Handle CORS or provide a list of allowed request methods\<close>.\<close>

definition after_loop :: "RegRouter \<Rightarrow> request \<Rightarrow> string list \<Rightarrow> string list \<Rightarrow> outcome" where
  "after_loop rr r methods allowed =
     (if 0 < length methods then
        seq (call_CORS rr methods r) ([Response (WriteHeader 204)], None)
      else if 0 < length allowed then
        call_ErrorCode rr 405 [''allowed'' \<mapsto> VString (Join allowed '', '')] r
      else call_ErrorCode rr 404 Map.empty r)"

text \<open>
  \<^verbatim>\<open>for _, route := range rr.Routes\<close>: the routes still to test, with the index of
  the first of them in \<^verbatim>\<open>rr.Routes\<close>, and the variables \<^verbatim>\<open>methods\<close>,
  \<^verbatim>\<open>allowed\<close> and \<^verbatim>\<open>params\<close> of the function.
\<close>

fun routes_loop ::
  "RegRouter \<Rightarrow> request \<Rightarrow> nat \<Rightarrow> Route list \<Rightarrow> string list \<Rightarrow> string list \<Rightarrow> Params \<Rightarrow> outcome"
where
  "routes_loop rr r i [] methods allowed params = after_loop rr r methods allowed"
| "routes_loop rr r i (route # rest) methods allowed params =
     (let matches = FindStringSubmatch (regex route) (Path r)
      in if 0 < length matches then
           (if CORS route then
              (if \<not> EqualFold (Method r) (route_method route) then
                 routes_loop rr r (Suc i) rest
                   (methods @ [route_method route]) (allowed @ [route_method route]) params
               else
                 seq (call_CORS rr (methods @ [route_method route]) r)
                     (run_route i route r matches params))
            else run_route i route r matches params)
         else routes_loop rr r (Suc i) rest methods allowed params)"

text \<open>
  The body of the function that \<^verbatim>\<open>Handler\<close> returns, from the declaration of its
  variables to its end.
\<close>

definition dispatch :: "RegRouter \<Rightarrow> request \<Rightarrow> outcome" where
  "dispatch rr r = routes_loop rr r 0 (Routes rr) [] [] \<lparr>Values = Map.empty\<rparr>"

text \<open>
  The function itself: its deferred function recovers a panic of the body and calls the
  status handler 500 with it; a panic of that call is not recovered.
\<close>

definition Handler :: "RegRouter \<Rightarrow> request \<Rightarrow> outcome" where
  "Handler rr r =
     (case snd (dispatch rr r) of
        None \<Rightarrow> dispatch rr r
      | Some err \<Rightarrow>
          (let recovered = call_ErrorCode rr 500 [''exception'' \<mapsto> VFault err] r
           in (fst (dispatch rr r) @ fst recovered, snd recovered)))"

subsection \<open>Add, Static and Params\<close>

text \<open>\<^verbatim>\<open>regexp.MustCompile\<close> panics where \<^verbatim>\<open>Compile\<close> fails.\<close>

definition Add :: "RegRouter \<Rightarrow> string \<Rightarrow> string \<Rightarrow> HandlerFunc \<Rightarrow> bool \<Rightarrow> fault + RegRouter" where
  "Add rr meth pattern h cors =
     (case Compile (''^'' @ pattern @ ''$'') of
        None \<Rightarrow> Inl (CompileError (''^'' @ pattern @ ''$''))
      | Some re \<Rightarrow>
          Inr (rr\<lparr>Routes := Routes rr @
                 [\<lparr>route_method = ToUpper meth, regex = re, handler = h, CORS = cors\<rparr>]\<rparr>))"




section \<open>Notions the properties are stated with\<close>

text \<open>The route's pattern matches the request path: \<^verbatim>\<open>len(matches) > 0\<close>.\<close>

definition path_matches :: "Route \<Rightarrow> request \<Rightarrow> bool" where
  "path_matches route r = (0 < length (FindStringSubmatch (regex route) (Path r)))"

text \<open>
  The loop goes on to the next route: the pattern does not match, or the route is
  CORS-enabled and its method is not the request's.
\<close>

definition passed_over :: "Route \<Rightarrow> request \<Rightarrow> bool" where
  "passed_over route r =
     ((CORS route \<and> \<not> EqualFold (Method r) (route_method route)) \<or> \<not> path_matches route r)"

definition is_CallErrorCode :: "int \<Rightarrow> event \<Rightarrow> bool" where
  "is_CallErrorCode code e = (case e of CallErrorCode c d \<Rightarrow> c = code | _ \<Rightarrow> False)"



text \<open>
  An expression matches the entire text: started at position 0, one of its threads ends at
  the end of the text.
\<close>

definition matches_entire :: "regex \<Rightarrow> string \<Rightarrow> bool" where
  "matches_entire re s =
     list_ex (\<lambda>t. fst t = length s) (run re s (0, replicate (Suc (MaxCap re)) None))"

subsection \<open>Programs the properties are evaluated on\<close>

text \<open>A handler that writes a body, and one that panics.\<close>

definition reply :: "string \<Rightarrow> HandlerFunc" where
  "reply body r = ([Write body], None)"

definition panics :: "string \<Rightarrow> HandlerFunc" where
  "panics msg r = ([], Some (Panic msg))"

definition panicking_500 :: "payload \<Rightarrow> request \<Rightarrow> effect" where
  "panicking_500 data r = ([], Some (Panic ''status handler failed''))"

text \<open>
  A start-up that registers routes one after another, and a program that registers the
  routes on a new router and has the handler serve one request.
\<close>

fun Add_all :: "RegRouter \<Rightarrow> (string \<times> string \<times> HandlerFunc \<times> bool) list \<Rightarrow> fault + RegRouter" where
  "Add_all rr [] = Inr rr"
| "Add_all rr ((meth, pattern, h, cors) # regs) =
     (case Add rr meth pattern h cors of
        Inl f \<Rightarrow> Inl f
      | Inr rr' \<Rightarrow> Add_all rr' regs)"

definition serve :: "(string \<times> string \<times> HandlerFunc \<times> bool) list \<Rightarrow> request \<Rightarrow> fault + outcome" where
  "serve regs r =
     (case Add_all New regs of
        Inl f \<Rightarrow> Inl f
      | Inr rr \<Rightarrow> Inr (Handler rr r))"

definition request_of :: "string \<Rightarrow> string \<Rightarrow> request" where
  "request_of meth path = \<lparr>Method = meth, Path = path, Header = Map.empty, ctx = None\<rparr>"

text \<open>
  The compiled forms of \<^verbatim>\<open>^/a$\<close>, \<^verbatim>\<open>/a|/b\<close>, \<^verbatim>\<open>^/a|/b$\<close> and
  \<^verbatim>\<open>^^/users/(?P<id>[0-9]+)$$\<close>.
\<close>

definition re_a :: regex where
  "re_a = Concat BeginText (Concat (Literal CHR ''/'') (Concat (Literal CHR ''a'') EndText))"

definition re_a_or_b :: regex where
  "re_a_or_b =
     Alternate (Concat (Literal CHR ''/'') (Literal CHR ''a''))
               (Concat (Literal CHR ''/'') (Literal CHR ''b''))"


definition re_a_or_b_anchored :: regex where
  "re_a_or_b_anchored =
     Alternate (Concat BeginText (Concat (Literal CHR ''/'') (Literal CHR ''a'')))
               (Concat (Literal CHR ''/'') (Concat (Literal CHR ''b'') EndText))"

text \<open>Routers with these patterns, as \<^verbatim>\<open>Add\<close> builds them on a new router.\<close>

definition two_routes :: "string \<Rightarrow> bool \<Rightarrow> string \<Rightarrow> bool \<Rightarrow> RegRouter" where
  "two_routes m1 c1 m2 c2 =
     New\<lparr>Routes := [\<lparr>route_method = m1, regex = re_a, handler = reply ''first'', CORS = c1\<rparr>,
                     \<lparr>route_method = m2, regex = re_a, handler = reply ''second'', CORS = c2\<rparr>]\<rparr>"


definition panicking_router :: "(payload \<Rightarrow> request \<Rightarrow> effect) \<Rightarrow> RegRouter" where
  "panicking_router h500 =
     \<lparr>Routes = [\<lparr>route_method = ''GET'', regex = re_a, handler = panics ''boom'', CORS = False\<rparr>],
      CTX = (),
      Handlers = \<lparr>CORSFunc = default_CORS,
                  ErrorCodes = [404 \<mapsto> default_404, 405 \<mapsto> default_405, 500 \<mapsto> h500]\<rparr>\<rparr>"


section \<open>The parameter store\<close>



text \<open>
  C10. \<^verbatim>\<open>Get\<close> returns the empty string both for a key stored with the empty string
  and for a key that is absent, so it cannot tell them apart, while \<^verbatim>\<open>GetE\<close> returns
  no error in the first case and the error for the key in the second.
\<close>

theorem Get_absent_or_empty:
  assumes "Values s k = Some []" and "Values s' k = None"
  shows "Get s k = Get s' k \<and> Get s k = []
         \<and> GetE s k = ([], None) \<and> GetE s' k = ([], Some (NoSuchParam k))"
  using assms by (simp add: GetE_def Get_def)

theorem Get_absent_or_empty_witness:
  "Get \<lparr>Values = [''q'' \<mapsto> []]\<rparr> ''q'' = Get \<lparr>Values = Map.empty\<rparr> ''q''
   \<and> Get \<lparr>Values = [''q'' \<mapsto> []]\<rparr> ''q'' = []
   \<and> GetE \<lparr>Values = [''q'' \<mapsto> []]\<rparr> ''q'' = ([], None)
   \<and> GetE \<lparr>Values = Map.empty\<rparr> ''q'' = ([], Some (NoSuchParam ''q''))"
proof -
  have present: "Values \<lparr>Values = [''q'' \<mapsto> []]\<rparr> ''q'' = Some []" by simp
  have absent: "Values \<lparr>Values = Map.empty\<rparr> ''q'' = None" by simp
  show ?thesis by (rule Get_absent_or_empty [OF present absent])
qed

section \<open>Evaluating the programs\<close>

lemma Compile_a: "Compile ''^/a$'' = Some re_a" by code_simp
lemma Find_a: "FindStringSubmatch re_a ''/a'' = [''/a'']" by code_simp
lemma Names_a: "SubexpNames re_a = [[]]" by code_simp
lemma Sprintf_d_0: "Sprintf_d 0 = ''0''" by code_simp
lemma ToUpper_GET: "ToUpper ''GET'' = ''GET''" by code_simp
lemma ToUpper_POST: "ToUpper ''POST'' = ''POST''" by code_simp
lemma ToUpper_PUT: "ToUpper ''PUT'' = ''PUT''" by code_simp
lemma EqualFold_POST_GET: "EqualFold ''POST'' ''GET'' = False" by code_simp
lemma EqualFold_POST_PUT: "EqualFold ''POST'' ''PUT'' = False" by code_simp
lemma EqualFold_POST_POST: "EqualFold ''POST'' ''POST'' = True" by code_simp
lemma EqualFold_GET_GET: "EqualFold ''GET'' ''GET'' = True" by code_simp

lemmas eval_defs = serve_def Add_def Handler_def dispatch_def run_route_def Set_def seq_def
  performed_def call_CORS_def call_ErrorCode_def after_loop_def New_def request_of_def reply_def
  default_CORS_def Header_Get_def

section \<open>The calls of a dispatch\<close>

lemma fst_seq: "fst (seq a b) = (case snd a of Some f \<Rightarrow> fst a | None \<Rightarrow> fst a @ fst b)"
  by (simp add: seq_def split: option.splits)

lemma set_fst_seq: "set (fst (seq a b)) \<subseteq> set (fst a) \<union> set (fst b)"
  by (auto simp: seq_def split: option.splits)

lemma set_fst_performed: "x \<in> set (fst (performed e)) \<Longrightarrow> \<exists>a. x = Response a"
  by (auto simp: performed_def)

lemma call_CORS_events:
  "e \<in> set (fst (call_CORS rr ms r)) \<Longrightarrow> e = CallCORS ms \<or> (\<exists>a. e = Response a)"
  using set_fst_seq [of "([CallCORS ms], None)" "performed (CORSFunc (Handlers rr) ms r)"]
        set_fst_performed [of e "CORSFunc (Handlers rr) ms r"]
  by (auto simp: call_CORS_def)

lemma call_ErrorCode_events:
  "e \<in> set (fst (call_ErrorCode rr code d r)) \<Longrightarrow> e = CallErrorCode code d \<or> (\<exists>a. e = Response a)"
proof (cases "ErrorCodes (Handlers rr) code")
  case None
  assume "e \<in> set (fst (call_ErrorCode rr code d r))"
  with None show ?thesis by (simp add: call_ErrorCode_def)
next
  case (Some h)
  assume "e \<in> set (fst (call_ErrorCode rr code d r))"
  with Some set_fst_seq [of "([CallErrorCode code d], None)" "performed (h d r)"]
       set_fst_performed [of e "h d r"]
  show ?thesis by (auto simp: call_ErrorCode_def)
qed

lemma run_route_events:
  "e \<in> set (fst (run_route i route r ms p)) \<Longrightarrow> (\<exists>r'. e = CallHandler i r') \<or> (\<exists>a. e = Response a)"
proof (cases "set_params (SubexpNames (regex route)) ms 0 p")
  case (Inl f)
  assume "e \<in> set (fst (run_route i route r ms p))"
  with Inl show ?thesis by (simp add: run_route_def)
next
  case (Inr p')
  assume "e \<in> set (fst (run_route i route r ms p))"
  with Inr set_fst_seq [of "([CallHandler i (r\<lparr>ctx := Some p'\<rparr>)], None)"
                            "performed (handler route (r\<lparr>ctx := Some p'\<rparr>))"]
       set_fst_performed [of e "handler route (r\<lparr>ctx := Some p'\<rparr>)"]
  show ?thesis by (auto simp: run_route_def)
qed

lemma after_loop_events:
  "e \<in> set (fst (after_loop rr r ms al)) \<Longrightarrow>
     e = CallCORS ms \<or> (\<exists>d. e = CallErrorCode 405 d) \<or> e = CallErrorCode 404 Map.empty
     \<or> (\<exists>a. e = Response a)"
proof -
  assume a: "e \<in> set (fst (after_loop rr r ms al))"
  show ?thesis
  proof (cases "0 < length ms")
    case True
    with a have "e \<in> set (fst (call_CORS rr ms r)) \<or> e = Response (WriteHeader 204)"
      using set_fst_seq [of "call_CORS rr ms r" "([Response (WriteHeader 204)], None)"]
      by (auto simp: after_loop_def)
    then show ?thesis using call_CORS_events by blast
  next
    case False
    with a show ?thesis
      using call_ErrorCode_events by (fastforce simp: after_loop_def split: if_splits)
  qed
qed

text \<open>
  Past a prefix of routes that are all passed over, both lists have grown by the methods
  of those whose pattern matched.
\<close>

lemma routes_loop_passed_over:
  "\<forall>route \<in> set pre. passed_over route r \<Longrightarrow>
   routes_loop rr r i (pre @ rest) ms al p =
   routes_loop rr r (i + length pre) rest
     (ms @ map route_method (filter (\<lambda>route. path_matches route r) pre))
     (al @ map route_method (filter (\<lambda>route. path_matches route r) pre)) p"
proof (induction pre arbitrary: i ms al)
  case Nil
  then show ?case by simp
next
  case (Cons route pre)
  then have po: "passed_over route r" and rest: "\<forall>route \<in> set pre. passed_over route r"
    by simp_all
  show ?case
  proof (cases "path_matches route r")
    case True
    with po have "CORS route" "\<not> EqualFold (Method r) (route_method route)"
      by (auto simp: passed_over_def)
    with True Cons.IH [OF rest] show ?thesis
      by (simp add: path_matches_def Let_def)
  next
    case False
    with Cons.IH [OF rest] show ?thesis
      by (simp add: path_matches_def Let_def)
  qed
qed

text \<open>At a route that is not passed over the loop ends.\<close>

lemma routes_loop_taken:
  "\<not> passed_over route r \<Longrightarrow>
   routes_loop rr r i (route # rest) ms al p =
     (if CORS route
      then seq (call_CORS rr (ms @ [route_method route]) r)
               (run_route i route r (FindStringSubmatch (regex route) (Path r)) p)
      else run_route i route r (FindStringSubmatch (regex route) (Path r)) p)"
  by (auto simp: passed_over_def path_matches_def Let_def)

text \<open>
  The route whose handler the loop invokes is the first one that is not passed over, and
  the index recorded with the call is its index.
\<close>

lemma routes_loop_CallHandler:
  "CallHandler k r' \<in> set (fst (routes_loop rr r i rs ms al p)) \<Longrightarrow>
   i \<le> k \<and> k < i + length rs \<and> \<not> passed_over (rs ! (k - i)) r
   \<and> (\<forall>m < k - i. passed_over (rs ! m) r)"
proof (induction rs arbitrary: i ms al)
  case Nil
  then show ?case using after_loop_events [of "CallHandler k r'" rr r ms al] by auto
next
  case (Cons route rest)
  show ?case
  proof (cases "passed_over route r")
    case True
    then have "routes_loop rr r i (route # rest) ms al p =
        routes_loop rr r (Suc i) rest
          (ms @ map route_method (filter (\<lambda>route. path_matches route r) [route]))
          (al @ map route_method (filter (\<lambda>route. path_matches route r) [route])) p"
      using routes_loop_passed_over [of "[route]" r rr i rest ms al p] by simp
    with Cons.prems Cons.IH
    have ih: "Suc i \<le> k \<and> k < Suc i + length rest \<and> \<not> passed_over (rest ! (k - Suc i)) r
              \<and> (\<forall>m < k - Suc i. passed_over (rest ! m) r)"
      by metis
    then have "k - i = Suc (k - Suc i)" by arith
    with ih True show ?thesis
      by (auto simp: nth_Cons split: nat.splits)
  next
    case False
    then have taken: "routes_loop rr r i (route # rest) ms al p =
        (if CORS route
         then seq (call_CORS rr (ms @ [route_method route]) r)
                  (run_route i route r (FindStringSubmatch (regex route) (Path r)) p)
         else run_route i route r (FindStringSubmatch (regex route) (Path r)) p)"
      by (rule routes_loop_taken)
    from Cons.prems have "CallHandler k r' \<in> set (fst
        (if CORS route
         then seq (call_CORS rr (ms @ [route_method route]) r)
                  (run_route i route r (FindStringSubmatch (regex route) (Path r)) p)
         else run_route i route r (FindStringSubmatch (regex route) (Path r)) p))"
      unfolding taken .
    then have
      "CallHandler k r' \<in> set (fst (call_CORS rr (ms @ [route_method route]) r))
       \<or> CallHandler k r' \<in> set (fst (run_route i route r (FindStringSubmatch (regex route) (Path r)) p))"
      using set_fst_seq [of "call_CORS rr (ms @ [route_method route]) r"
                            "run_route i route r (FindStringSubmatch (regex route) (Path r)) p"]
      by (auto split: if_splits)
    then have "k = i"
      using call_CORS_events [of "CallHandler k r'"] run_route_events [of "CallHandler k r'"]
      by auto
    with False show ?thesis by simp
  qed
qed

lemma Handler_events:
  "e \<in> set (fst (Handler rr r)) \<Longrightarrow>
   e \<in> set (fst (dispatch rr r)) \<or> (\<exists>d. e = CallErrorCode 500 d) \<or> (\<exists>a. e = Response a)"
  using call_ErrorCode_events [of e rr 500]
  by (auto simp: Handler_def Let_def split: option.splits)

text \<open>
  C1, amended. If the patterns of two registered routes both match the request path and
  the method of the first-registered one is the request's method (case-insensitively),
  the later one is never the dispatched handler: every handler that dispatch invokes
  stands at the index of the first one or before it. (A CORS-enabled route whose method
  is not the request's is passed over, so without the condition on the method a later
  matching route can be the one dispatched.)
\<close>

theorem first_matching_method_wins:
  assumes "i < j" and "j < length (Routes rr)"
    and "path_matches (Routes rr ! i) r" and "path_matches (Routes rr ! j) r"
    and "EqualFold (Method r) (route_method (Routes rr ! i))"
  shows "\<forall>k r'. CallHandler k r' \<in> set (fst (Handler rr r)) \<longrightarrow> k \<le> i \<and> k \<noteq> j"
proof (intro allI impI)
  fix k r'
  assume "CallHandler k r' \<in> set (fst (Handler rr r))"
  then have "CallHandler k r' \<in> set (fst (dispatch rr r))"
    using Handler_events [of "CallHandler k r'" rr r] by auto
  then have "\<forall>m < k. passed_over (Routes rr ! m) r"
    using routes_loop_CallHandler [of k r' rr r 0 "Routes rr"] by (simp add: dispatch_def)
  moreover have "\<not> passed_over (Routes rr ! i) r"
    using assms(3,5) by (simp add: passed_over_def)
  ultimately have "k \<le> i" by (meson not_le_imp_less)
  with assms(1) show "k \<le> i \<and> k \<noteq> j" by simp
qed

section \<open>The parameters of a dispatched request\<close>

subsection \<open>The lengths of the match and of the names\<close>







subsection \<open>The loop that sets the parameters\<close>






subsection \<open>What the loop hands to the handler\<close>




section \<open>The outcomes of dispatch\<close>

subsection \<open>What dispatch never calls\<close>

lemma routes_loop_events:
  "e \<in> set (fst (routes_loop rr r i rs ms al p)) \<Longrightarrow>
   (\<exists>ms. e = CallCORS ms) \<or> (\<exists>d. e = CallErrorCode 405 d) \<or> e = CallErrorCode 404 Map.empty
   \<or> (\<exists>k r'. e = CallHandler k r') \<or> (\<exists>a. e = Response a)"
proof (induction rs arbitrary: i ms al)
  case Nil
  then show ?case using after_loop_events [of e rr r ms al] by auto
next
  case (Cons route rest)
  show ?case
  proof (cases "passed_over route r")
    case True
    then have eq: "routes_loop rr r i (route # rest) ms al p =
        routes_loop rr r (Suc i) rest
          (ms @ map route_method (filter (\<lambda>route. path_matches route r) [route]))
          (al @ map route_method (filter (\<lambda>route. path_matches route r) [route])) p"
      using routes_loop_passed_over [of "[route]" r rr i rest ms al p] by simp
    from Cons.prems show ?thesis unfolding eq by (rule Cons.IH)
  next
    case False
    then have taken: "routes_loop rr r i (route # rest) ms al p =
        (if CORS route
         then seq (call_CORS rr (ms @ [route_method route]) r)
                  (run_route i route r (FindStringSubmatch (regex route) (Path r)) p)
         else run_route i route r (FindStringSubmatch (regex route) (Path r)) p)"
      by (rule routes_loop_taken)
    from Cons.prems have "e \<in> set (fst
        (if CORS route
         then seq (call_CORS rr (ms @ [route_method route]) r)
                  (run_route i route r (FindStringSubmatch (regex route) (Path r)) p)
         else run_route i route r (FindStringSubmatch (regex route) (Path r)) p))"
      unfolding taken .
    then have
      "e \<in> set (fst (call_CORS rr (ms @ [route_method route]) r))
       \<or> e \<in> set (fst (run_route i route r (FindStringSubmatch (regex route) (Path r)) p))"
      using set_fst_seq [of "call_CORS rr (ms @ [route_method route]) r"
                            "run_route i route r (FindStringSubmatch (regex route) (Path r)) p"]
      by (auto split: if_splits)
    then show ?thesis
      using call_CORS_events [of e] run_route_events [of e] by blast
  qed
qed

lemma is_CallErrorCode_simps [simp]:
  "is_CallErrorCode c (CallErrorCode c' d) = (c' = c)"
  "\<not> is_CallErrorCode c (CallCORS ms)"
  "\<not> is_CallErrorCode c (CallHandler k r)"
  "\<not> is_CallErrorCode c (Response a)"
  by (simp_all add: is_CallErrorCode_def)

lemma dispatch_not_500:
  assumes "e \<in> set (fst (dispatch rr r))"
  shows "\<not> is_CallErrorCode 500 e"
proof -
  from assms have "(\<exists>ms. e = CallCORS ms) \<or> (\<exists>d. e = CallErrorCode 405 d)
      \<or> e = CallErrorCode 404 Map.empty \<or> (\<exists>k r'. e = CallHandler k r') \<or> (\<exists>a. e = Response a)"
    unfolding dispatch_def by (rule routes_loop_events)
  then show ?thesis by auto
qed

lemma filter_none: "(\<And>e. e \<in> set es \<Longrightarrow> \<not> P e) \<Longrightarrow> filter P es = []"
  by (induction es) auto

lemma filter_Response: "filter (is_CallErrorCode c) (map Response as) = []"
  by (induction as) simp_all

text \<open>The two lists of the loop are equal when it ends, so the status handler 405 is never called.\<close>

lemma routes_loop_never_405:
  "CallErrorCode 405 d \<notin> set (fst (routes_loop rr r i rs ms ms p))"
proof (induction rs arbitrary: i ms)
  case Nil
  show ?case
  proof
    assume a: "CallErrorCode 405 d \<in> set (fst (routes_loop rr r i [] ms ms p))"
    show False
    proof (cases "0 < length ms")
      case True
      with a have "CallErrorCode 405 d \<in> set (fst (call_CORS rr ms r))
                   \<or> CallErrorCode 405 d = Response (WriteHeader 204)"
        using set_fst_seq [of "call_CORS rr ms r" "([Response (WriteHeader 204)], None)"]
        by (auto simp: after_loop_def)
      then show False using call_CORS_events [of "CallErrorCode 405 d"] by auto
    next
      case False
      with a show False
        using call_ErrorCode_events [of "CallErrorCode 405 d" rr 404 Map.empty r]
        by (auto simp: after_loop_def)
    qed
  qed
next
  case (Cons route rest)
  show ?case
  proof (cases "passed_over route r")
    case True
    then have eq: "routes_loop rr r i (route # rest) ms ms p =
        routes_loop rr r (Suc i) rest
          (ms @ map route_method (filter (\<lambda>route. path_matches route r) [route]))
          (ms @ map route_method (filter (\<lambda>route. path_matches route r) [route])) p"
      using routes_loop_passed_over [of "[route]" r rr i rest ms ms p] by simp
    show ?thesis unfolding eq by (rule Cons.IH)
  next
    case False
    then have taken: "routes_loop rr r i (route # rest) ms ms p =
        (if CORS route
         then seq (call_CORS rr (ms @ [route_method route]) r)
                  (run_route i route r (FindStringSubmatch (regex route) (Path r)) p)
         else run_route i route r (FindStringSubmatch (regex route) (Path r)) p)"
      by (rule routes_loop_taken)
    show ?thesis
    proof
      assume "CallErrorCode 405 d \<in> set (fst (routes_loop rr r i (route # rest) ms ms p))"
      then have "CallErrorCode 405 d \<in> set (fst
        (if CORS route
         then seq (call_CORS rr (ms @ [route_method route]) r)
                  (run_route i route r (FindStringSubmatch (regex route) (Path r)) p)
         else run_route i route r (FindStringSubmatch (regex route) (Path r)) p))"
        unfolding taken .
      then have
        "CallErrorCode 405 d \<in> set (fst (call_CORS rr (ms @ [route_method route]) r))
         \<or> CallErrorCode 405 d \<in> set (fst (run_route i route r (FindStringSubmatch (regex route) (Path r)) p))"
        using set_fst_seq [of "call_CORS rr (ms @ [route_method route]) r"
                              "run_route i route r (FindStringSubmatch (regex route) (Path r)) p"]
        by (auto split: if_splits)
      then show False
        using call_CORS_events [of "CallErrorCode 405 d"] run_route_events [of "CallErrorCode 405 d"]
        by auto
    qed
  qed
qed

lemma Handler_never_405: "CallErrorCode 405 d \<notin> set (fst (Handler rr r))"
proof
  assume "CallErrorCode 405 d \<in> set (fst (Handler rr r))"
  then have "CallErrorCode 405 d \<in> set (fst (dispatch rr r))"
    using Handler_events [of "CallErrorCode 405 d" rr r] by auto
  then show False using routes_loop_never_405 [of d rr r 0 "Routes rr" "[]"]
    by (simp add: dispatch_def)
qed

subsection \<open>When every route is passed over\<close>

lemma dispatch_passed_over:
  assumes "\<forall>route \<in> set (Routes rr). passed_over route r"
  shows "dispatch rr r =
     after_loop rr r (map route_method (filter (\<lambda>route. path_matches route r) (Routes rr)))
                     (map route_method (filter (\<lambda>route. path_matches route r) (Routes rr)))"
  using routes_loop_passed_over [OF assms, of rr 0 "[]" "[]" "[]" "\<lparr>Values = Map.empty\<rparr>"]
  by (simp add: dispatch_def)

lemma preflight_without_other_routes:
  assumes "\<forall>route \<in> set (Routes rr). passed_over route r"
    and "\<exists>route \<in> set (Routes rr). path_matches route r"
  shows "dispatch rr r =
     seq (call_CORS rr (map route_method (filter (\<lambda>route. path_matches route r) (Routes rr))) r)
         ([Response (WriteHeader 204)], None)"
proof -
  from assms(2) have "filter (\<lambda>route. path_matches route r) (Routes rr) \<noteq> []"
    by (simp add: filter_empty_conv)
  then show ?thesis
    using dispatch_passed_over [OF assms(1)] by (simp add: after_loop_def)
qed



text \<open>
  C5, amended. When the body of dispatch panics and the bundle has a status handler 500,
  the panic is recovered and turned into exactly one call of that handler, with the panic
  value under the key \<open>exception\<close>; what the caller then observes is what that handler
  does: no panic if it returns (the default one always does), its panic otherwise.
\<close>

theorem panic_recovered:
  assumes "snd (dispatch rr r) = Some err" and "ErrorCodes (Handlers rr) 500 = Some h"
  shows "Handler rr r =
           (fst (dispatch rr r) @ CallErrorCode 500 [''exception'' \<mapsto> VFault err]
              # map Response (fst (h [''exception'' \<mapsto> VFault err] r)),
            snd (h [''exception'' \<mapsto> VFault err] r))
    \<and> length (filter (is_CallErrorCode 500) (fst (Handler rr r))) = 1
    \<and> (h = default_500 \<longrightarrow> snd (Handler rr r) = None)"
proof -
  have H: "Handler rr r =
           (fst (dispatch rr r) @ CallErrorCode 500 [''exception'' \<mapsto> VFault err]
              # map Response (fst (h [''exception'' \<mapsto> VFault err] r)),
            snd (h [''exception'' \<mapsto> VFault err] r))"
    using assms by (simp add: Handler_def Let_def call_ErrorCode_def seq_def performed_def)
  have none: "filter (is_CallErrorCode 500) (fst (dispatch rr r)) = []"
    using dispatch_not_500 by (intro filter_none) blast
  have one: "length (filter (is_CallErrorCode 500) (fst (Handler rr r))) = 1"
    by (simp add: H none filter_Response)
  have "h = default_500 \<longrightarrow> snd (Handler rr r) = None"
    by (simp add: H default_500_def)
  with H one show ?thesis by blast
qed


section \<open>The properties on the programs\<close>

lemma Compile_a_or_b: "Compile ''/a|/b'' = Some re_a_or_b" by code_simp
lemma Compile_a_or_b_anchored: "Compile ''^/a|/b$'' = Some re_a_or_b_anchored" by code_simp
lemma Find_a_or_b: "FindStringSubmatch re_a_or_b_anchored ''/ab'' = [''/a'']" by code_simp
lemma Names_a_or_b: "SubexpNames re_a_or_b_anchored = [[]]" by code_simp
lemma not_entire_a_or_b: "matches_entire re_a_or_b ''/ab'' = False" by code_simp

lemmas eval_facts = Compile_a Find_a Names_a Sprintf_d_0 ToUpper_GET ToUpper_POST
  ToUpper_PUT EqualFold_POST_GET EqualFold_POST_PUT EqualFold_POST_POST EqualFold_GET_GET

text \<open>
  C1 as stated fails. GET and POST are registered in this order for the same path, both
  CORS-enabled. Both patterns match the path of a POST request, and the handler invoked
  is the one of the second route.
\<close>

theorem first_registered_counterexample:
  "Add_all New [(''GET'', ''/a'', reply ''first'', True), (''POST'', ''/a'', reply ''second'', True)]
     = Inr (two_routes ''GET'' True ''POST'' True)
   \<and> path_matches (Routes (two_routes ''GET'' True ''POST'' True) ! 0) (request_of ''POST'' ''/a'')
   \<and> path_matches (Routes (two_routes ''GET'' True ''POST'' True) ! 1) (request_of ''POST'' ''/a'')
   \<and> Handler (two_routes ''GET'' True ''POST'' True) (request_of ''POST'' ''/a'')
       = ([CallCORS [''GET'', ''POST''],
           Response (HeaderSet ''Access-Control-Allow-Origin'' []),
           Response (HeaderSet ''Access-Control-Allow-Methods'' ''GET, POST''),
           Response (HeaderSet ''Access-Control-Allow-Credentials'' ''true''),
           Response (HeaderSet ''Access-Control-Allow-Headers''
             ''Accept, Content-Type, Content-Length, Accept-Encoding, X-CSRF-Token, Authorization''),
           CallHandler 1 ((request_of ''POST'' ''/a'')\<lparr>ctx := Some \<lparr>Values = [''0'' \<mapsto> ''/a'']\<rparr>\<rparr>),
           Response (Write ''second'')], None)"
  by (simp add: eval_defs eval_facts two_routes_def path_matches_def)

text \<open>The amended C1 on the same router and a GET request.\<close>

theorem first_matching_method_wins_witness:
  "(0::nat) < 1 \<and> 1 < length (Routes (two_routes ''GET'' True ''POST'' True))
   \<and> path_matches (Routes (two_routes ''GET'' True ''POST'' True) ! 0) (request_of ''GET'' ''/a'')
   \<and> path_matches (Routes (two_routes ''GET'' True ''POST'' True) ! 1) (request_of ''GET'' ''/a'')
   \<and> EqualFold (Method (request_of ''GET'' ''/a''))
        (route_method (Routes (two_routes ''GET'' True ''POST'' True) ! 0))
   \<and> (\<forall>r'. CallHandler 1 r' \<notin> set (fst (Handler (two_routes ''GET'' True ''POST'' True)
                                               (request_of ''GET'' ''/a''))))"
proof -
  let ?rr = "two_routes ''GET'' True ''POST'' True"
  let ?r = "request_of ''GET'' ''/a''"
  have lt: "(0::nat) < 1" by simp
  have len: "1 < length (Routes ?rr)" by (simp add: two_routes_def)
  have m0: "path_matches (Routes ?rr ! 0) ?r"
    by (simp add: two_routes_def path_matches_def request_of_def Find_a)
  have m1: "path_matches (Routes ?rr ! 1) ?r"
    by (simp add: two_routes_def path_matches_def request_of_def Find_a)
  have eq: "EqualFold (Method ?r) (route_method (Routes ?rr ! 0))"
    by (simp add: two_routes_def request_of_def EqualFold_GET_GET)
  have "\<forall>r'. CallHandler 1 r' \<notin> set (fst (Handler ?rr ?r))"
    using first_matching_method_wins [OF lt len m0 m1 eq] by auto
  with lt len m0 m1 eq show ?thesis by blast
qed

text \<open>
  C2 does not hold of the code. One route is registered for GET without CORS; a POST
  request for its path finds no route with its method and no CORS-enabled route, and the
  specification gives it the status handler 405 with \<open>allowed\<close> = GET. The code compares methods
  only inside the branch of a CORS-enabled route, so the handler of the GET route runs;
  by \<open>Handler_never_405\<close> the status handler 405 is never called at all.
\<close>

theorem wrong_method_served:
  "serve [(''GET'', ''/a'', reply ''got'', False)] (request_of ''POST'' ''/a'')
   = Inr ([CallHandler 0 ((request_of ''POST'' ''/a'')\<lparr>ctx := Some \<lparr>Values = [''0'' \<mapsto> ''/a'']\<rparr>\<rparr>),
           Response (Write ''got'')], None)"
  by (simp add: eval_defs eval_facts)

text \<open>
  C3 does not hold of the code. A CORS-enabled GET route and a PUT route without CORS are
  registered for the same path; a POST request matches the path of both and the method
  of neither, and the specification gives it the CORS headers for GET and status 204. The code
  passes over the GET route and runs the handler of the PUT route, whose method it never
  compares. (When every route that matches the path is CORS-enabled the property holds:
  \<open>preflight_without_other_routes\<close>.)
\<close>

theorem preflight_preempted:
  "serve [(''GET'', ''/a'', reply ''first'', True), (''PUT'', ''/a'', reply ''second'', False)]
     (request_of ''POST'' ''/a'')
   = Inr ([CallHandler 1 ((request_of ''POST'' ''/a'')\<lparr>ctx := Some \<lparr>Values = [''0'' \<mapsto> ''/a'']\<rparr>\<rparr>),
           Response (Write ''second'')], None)"
  by (simp add: eval_defs eval_facts)

text \<open>
  C6 does not hold of the code. \<^verbatim>\<open>Add\<close> puts the anchors around the text of the
  pattern, and in \<^verbatim>\<open>^/a|/b$\<close> each anchor belongs to one alternative only. The
  pattern \<^verbatim>\<open>/a|/b\<close> does not match the entire path \<^verbatim>\<open>/ab\<close>, yet the route is
  dispatched for it, on the prefix \<^verbatim>\<open>/a\<close>.
\<close>

theorem alternation_escapes_anchors:
  "Compile ''/a|/b'' = Some re_a_or_b
   \<and> \<not> matches_entire re_a_or_b ''/ab''
   \<and> Compile (''^'' @ ''/a|/b'' @ ''$'') = Some re_a_or_b_anchored
   \<and> serve [(''GET'', ''/a|/b'', reply ''hit'', False)] (request_of ''GET'' ''/ab'')
     = Inr ([CallHandler 0 ((request_of ''GET'' ''/ab'')\<lparr>ctx := Some \<lparr>Values = [''0'' \<mapsto> ''/a'']\<rparr>\<rparr>),
             Response (Write ''hit'')], None)"
  by (simp add: eval_defs eval_facts Compile_a_or_b Compile_a_or_b_anchored Find_a_or_b
        Names_a_or_b not_entire_a_or_b)

text \<open>
  C5 as stated fails. The bundle has a status handler 500 and the handler of the route
  panics; the panic is recovered and the status handler 500 is called, but that handler
  panics in its turn and this second panic leaves \<^verbatim>\<open>Handler\<close> uncaught.
\<close>

theorem panic_uncaught_counterexample:
  "ErrorCodes (Handlers (panicking_router panicking_500)) 500 = Some panicking_500
   \<and> dispatch (panicking_router panicking_500) (request_of ''GET'' ''/a'')
       = ([CallHandler 0 ((request_of ''GET'' ''/a'')\<lparr>ctx := Some \<lparr>Values = [''0'' \<mapsto> ''/a'']\<rparr>\<rparr>)],
          Some (Panic ''boom''))
   \<and> Handler (panicking_router panicking_500) (request_of ''GET'' ''/a'')
       = ([CallHandler 0 ((request_of ''GET'' ''/a'')\<lparr>ctx := Some \<lparr>Values = [''0'' \<mapsto> ''/a'']\<rparr>\<rparr>),
           CallErrorCode 500 [''exception'' \<mapsto> VFault (Panic ''boom'')]],
          Some (Panic ''status handler failed''))"
  by (simp add: eval_defs eval_facts panicking_router_def panicking_500_def panics_def)

text \<open>The amended C5 on a route whose handler panics, with the default status handlers.\<close>

theorem panic_recovered_witness:
  "snd (dispatch (panicking_router default_500) (request_of ''GET'' ''/a'')) = Some (Panic ''boom'')
   \<and> ErrorCodes (Handlers (panicking_router default_500)) 500 = Some default_500
   \<and> Handler (panicking_router default_500) (request_of ''GET'' ''/a'')
       = ([CallHandler 0 ((request_of ''GET'' ''/a'')\<lparr>ctx := Some \<lparr>Values = [''0'' \<mapsto> ''/a'']\<rparr>\<rparr>),
           CallErrorCode 500 [''exception'' \<mapsto> VFault (Panic ''boom'')],
           Response (HttpError (''500 - Internal Server Error (Exception: boom)'' @ newline) 500)],
          None)
   \<and> length (filter (is_CallErrorCode 500)
        (fst (Handler (panicking_router default_500) (request_of ''GET'' ''/a'')))) = 1"
proof -
  let ?rr = "panicking_router default_500"
  let ?r = "request_of ''GET'' ''/a''"
  have d: "dispatch ?rr ?r
       = ([CallHandler 0 (?r\<lparr>ctx := Some \<lparr>Values = [''0'' \<mapsto> ''/a'']\<rparr>\<rparr>)], Some (Panic ''boom''))"
    by (simp add: eval_defs eval_facts panicking_router_def panics_def)
  then have p: "snd (dispatch ?rr ?r) = Some (Panic ''boom'')" by simp
  have h: "ErrorCodes (Handlers ?rr) 500 = Some default_500"
    by (simp add: panicking_router_def)
  from panic_recovered [OF p h] d show ?thesis
    by (simp add: p h default_500_def)
qed







end
